theory Spec2Isabelle
  imports Main
begin

section \<open>The polling hook \<open>useApiWithInterval\<close> as a state machine\<close>

text \<open>
  The hook of \<^verbatim>\<open>src/useApiWithInterval.ts\<close> keeps three state cells (\<open>data\<close>,
  \<open>loading\<close>, \<open>error\<close>) and two refs (\<open>intervalRef\<close>, \<open>abortControllerRef\<close>). Its code
  runs in pieces on a single-threaded event loop: the effect on mount, the effect's
  cleanup on unmount, \<open>refetch\<close>, the interval callback, and the continuation of
  \<open>fetchData\<close> after its \<^verbatim>\<open>await\<close>. Each piece is a function from state to state;
  the event loop is a list of events folded over the state.

  The parts of the JavaScript runtime that the hook talks to are explicit fields of the
  state: the abort controllers created so far and which of them have been aborted, the
  active interval timers with their next due time, a clock in milliseconds, and the
  log of the calls of \<open>apiCall\<close>. Objects (abort controllers, timer handles) are
  natural numbers handed out by a counter, so that two objects are the same object
  exactly when their numbers agree.

  A call of \<^verbatim>\<open>setData\<close>, \<^verbatim>\<open>setLoading\<close> or \<^verbatim>\<open>setError\<close> writes its cell while the
  component is mounted; React drops the update of a component that has been
  unmounted, and the hook has no guard of its own. The options are fixed for a run,
  so the effect is not run again by a change of its dependencies, and the cleanup
  runs at the unmount. The type \<open>T\<close> of the fetched value is the type parameter
  \<open>'a\<close>, and \<^verbatim>\<open>null\<close> in a cell is \<open>None\<close>.

  The field \<open>trace\<close> lists, in the order they happen, the effects the hook has on
  the runtime: a signal that becomes aborted, a controller created, a state cell
  written, a timer set or cleared, a call of \<open>apiCall\<close>. A call that changes nothing
  (aborting an aborted signal, clearing a dead timer, setting the state of an
  unmounted component) leaves no entry.
\<close>

subsection \<open>Values\<close>

text \<open>
  What a rejected promise carries: an instance of \<^verbatim>\<open>Error\<close> with its \<open>name\<close> and
  \<open>message\<close>, or any other value (the tests reject with a plain string).
\<close>

datatype js_error = JsError (name: string) (message: string)

datatype thrown = ThrownError js_error | ThrownOther string

datatype 'a outcome = Resolved 'a | Rejected thrown

text \<open>The options of the hook; an omitted option takes its default.\<close>

record options =
  interval :: "int option"
  immediate :: "bool option"

definition interval_of :: "options \<Rightarrow> int" where
  "interval_of opts = (case interval opts of None \<Rightarrow> 5000 | Some i \<Rightarrow> i)"

definition immediate_of :: "options \<Rightarrow> bool" where
  "immediate_of opts = (case immediate opts of None \<Rightarrow> True | Some b \<Rightarrow> b)"

text \<open>An active interval timer: its handle, the time of its next tick, its period.\<close>

type_synonym timer = "nat \<times> nat \<times> nat"

datatype 'a action =
    Aborted nat
  | Created nat
  | Called nat
  | DataSet "'a option"
  | LoadingSet bool
  | ErrorSet "js_error option"
  | TimerSet nat
  | TimerCleared nat

record 'a hook =
  data :: "'a option"
  loading :: bool
  error :: "js_error option"
  mounted :: bool
  intervalRef :: "nat option"
  abortControllerRef :: "nat option"
  aborted :: "nat list"
  nextController :: nat
  timers :: "timer list"
  nextTimer :: nat
  now :: nat
  calls :: "nat list"
  pending :: "nat list"
  trace :: "'a action list"

text \<open>
  The state at the first render: the three \<^verbatim>\<open>useState\<close> cells and the two
  \<^verbatim>\<open>useRef\<close> cells with their initial values, the component not unmounted, no
  controller, no timer, no call.
\<close>

definition init :: "'a hook" where
  "init = \<lparr>data = None, loading = False, error = None, mounted = True,
           intervalRef = None, abortControllerRef = None, aborted = [],
           nextController = 0, timers = [], nextTimer = 1, now = 0, calls = [],
           pending = [], trace = []\<rparr>"

subsection \<open>Runtime primitives\<close>

text \<open>
  The state setters of \<^verbatim>\<open>useState\<close>: the cell is written while the component is
  mounted, and the call is dropped afterwards.
\<close>

definition setData :: "'a option \<Rightarrow> 'a hook \<Rightarrow> 'a hook" where
  "setData v s =
     (if mounted s then s\<lparr>data := v, trace := trace s @ [DataSet v]\<rparr> else s)"

definition setLoading :: "bool \<Rightarrow> 'a hook \<Rightarrow> 'a hook" where
  "setLoading b s =
     (if mounted s then s\<lparr>loading := b, trace := trace s @ [LoadingSet b]\<rparr> else s)"

definition setError :: "js_error option \<Rightarrow> 'a hook \<Rightarrow> 'a hook" where
  "setError e s =
     (if mounted s then s\<lparr>error := e, trace := trace s @ [ErrorSet e]\<rparr> else s)"

text \<open>
  \<^verbatim>\<open>new AbortController()\<close>: a controller that no one has seen before, its signal
  not aborted.
\<close>

definition newAbortController :: "'a hook \<Rightarrow> nat \<times> 'a hook" where
  "newAbortController s =
     (nextController s,
      s\<lparr>nextController := Suc (nextController s),
        trace := trace s @ [Created (nextController s)]\<rparr>)"

text \<open>
  \<^verbatim>\<open>controller.abort()\<close>: the signal becomes aborted and stays so; aborting it again
  does nothing.
\<close>

definition abort :: "nat \<Rightarrow> 'a hook \<Rightarrow> 'a hook" where
  "abort c s =
     (if c \<in> set (aborted s) then s
      else s\<lparr>aborted := c # aborted s, trace := trace s @ [Aborted c]\<rparr>)"

text \<open>
  \<^verbatim>\<open>setInterval(f, ms)\<close>: a new timer whose first tick is one period from now. The
  runtime sets a delay below 1 or above 2147483647 milliseconds to 1.
\<close>

definition period :: "int \<Rightarrow> nat" where
  "period ms = (if ms < 1 \<or> 2147483647 < ms then 1 else nat ms)"

definition setInterval :: "int \<Rightarrow> 'a hook \<Rightarrow> nat \<times> 'a hook" where
  "setInterval ms s =
     (nextTimer s,
      s\<lparr>timers := timers s @ [(nextTimer s, now s + period ms, period ms)],
        nextTimer := Suc (nextTimer s),
        trace := trace s @ [TimerSet (nextTimer s)]\<rparr>)"

text \<open>\<^verbatim>\<open>clearInterval(h)\<close>: the timer is gone; clearing a dead handle does nothing.\<close>

definition clearInterval :: "nat \<Rightarrow> 'a hook \<Rightarrow> 'a hook" where
  "clearInterval h s =
     (if h \<in> set (map fst (timers s))
      then s\<lparr>timers := filter (\<lambda>t. fst t \<noteq> h) (timers s),
             trace := trace s @ [TimerCleared h]\<rparr>
      else s)"

text \<open>
  \<^verbatim>\<open>apiCall(signal)\<close>: the caller's function is opaque. The call is logged with the
  controller whose signal it was given, and the promise it returns is outstanding
  until a \<open>Settle\<close> event delivers its outcome.
\<close>

definition apiCall :: "nat \<Rightarrow> 'a hook \<Rightarrow> 'a hook" where
  "apiCall c s =
     s\<lparr>calls := calls s @ [c], pending := pending s @ [c],
       trace := trace s @ [Called c]\<rparr>"

subsection \<open>The hook's functions\<close>

text \<open>
  \<open>fetchData\<close> up to its \<^verbatim>\<open>await\<close> (lines 28 to 41). \<open>preamble\<close> is everything before
  the call of \<open>apiCall\<close>: abort the controller in the ref if there is one, put a new
  controller in the ref, \<^verbatim>\<open>setLoading(true)\<close>, \<^verbatim>\<open>setError(null)\<close>.
\<close>

definition preamble :: "'a hook \<Rightarrow> 'a hook" where
  "preamble s =
     (let s1 = (case abortControllerRef s of None \<Rightarrow> s | Some c \<Rightarrow> abort c s);
          (c', s2) = newAbortController s1;
          s3 = s2\<lparr>abortControllerRef := Some c'\<rparr>;
          s4 = setLoading True s3
      in setError None s4)"

text \<open>
  The call reads the signal from the ref, which \<open>preamble\<close> has just filled: the
  \<open>None\<close> case below never runs.
\<close>

definition fetchData :: "'a hook \<Rightarrow> 'a hook" where
  "fetchData s =
     (let s' = preamble s
      in case abortControllerRef s' of None \<Rightarrow> s' | Some c \<Rightarrow> apiCall c s')"

text \<open>
  \<open>fetchData\<close> after its \<^verbatim>\<open>await\<close> (lines 42 to 55): the \<^verbatim>\<open>try\<close> body on a resolved
  promise, the \<^verbatim>\<open>catch\<close> body on a rejected one, then the \<^verbatim>\<open>finally\<close> body. None
  of the three consults \<open>abortControllerRef\<close>.
\<close>

definition fetchData_settled :: "'a outcome \<Rightarrow> 'a hook \<Rightarrow> 'a hook" where
  "fetchData_settled out s =
     (let s1 = (case out of
                  Resolved result \<Rightarrow> setError None (setData (Some result) s)
                | Rejected err \<Rightarrow>
                    (case err of
                       ThrownError e \<Rightarrow>
                         if name e \<noteq> ''AbortError''
                         then setData None (setError (Some e) s)
                         else s
                     | ThrownOther v \<Rightarrow> s))
      in setLoading False s1)"

text \<open>\<open>startInterval\<close> (lines 58 to 66).\<close>

definition startInterval :: "options \<Rightarrow> 'a hook \<Rightarrow> 'a hook" where
  "startInterval opts s =
     (let s1 = (case intervalRef s of None \<Rightarrow> s | Some h \<Rightarrow> clearInterval h s);
          (h', s2) = setInterval (interval_of opts) s1
      in s2\<lparr>intervalRef := Some h'\<rparr>)"

text \<open>\<open>refetch\<close> (lines 68 to 71).\<close>

definition refetch :: "options \<Rightarrow> 'a hook \<Rightarrow> 'a hook" where
  "refetch opts s = startInterval opts (fetchData s)"

text \<open>
  The effect (lines 73 to 80) and its cleanup (lines 82 to 92). At the unmount React
  runs the cleanup and the component is gone.
\<close>

definition effect :: "options \<Rightarrow> 'a hook \<Rightarrow> 'a hook" where
  "effect opts s = startInterval opts (if immediate_of opts then fetchData s else s)"

definition cleanup :: "'a hook \<Rightarrow> 'a hook" where
  "cleanup s =
     (let s1 = (case intervalRef s of None \<Rightarrow> s | Some h \<Rightarrow> clearInterval h s)
      in case abortControllerRef s1 of None \<Rightarrow> s1 | Some c \<Rightarrow> abort c s1)"

definition unmount :: "'a hook \<Rightarrow> 'a hook" where
  "unmount s = (cleanup s)\<lparr>mounted := False\<rparr>"

subsection \<open>The event loop\<close>

text \<open>
  A tick of timer \<open>h\<close>: if the timer is still active its next tick moves one period
  on and its callback, \<open>fetchData\<close>, runs.
\<close>

definition fire :: "timer \<Rightarrow> 'a hook \<Rightarrow> 'a hook" where
  "fire t s =
     (if fst t \<in> set (map fst (timers s))
      then fetchData
             (s\<lparr>timers := map (\<lambda>u. if fst u = fst t
                                    then (fst u, fst (snd u) + snd (snd u), snd (snd u))
                                    else u) (timers s)\<rparr>)
      else s)"

text \<open>One millisecond passes: the clock moves, then every timer that is due ticks.\<close>

definition elapse :: "'a hook \<Rightarrow> 'a hook" where
  "elapse s =
     (let s1 = s\<lparr>now := Suc (now s)\<rparr>
      in fold fire (filter (\<lambda>t. fst (snd t) \<le> now s1) (timers s1)) s1)"

fun advance :: "nat \<Rightarrow> 'a hook \<Rightarrow> 'a hook" where
  "advance 0 s = s"
| "advance (Suc n) s = advance n (elapse s)"

text \<open>
  The promise of the call made with controller \<open>c\<close> settles: if it is outstanding,
  it no longer is and the rest of \<open>fetchData\<close> runs on its outcome. A promise settles
  once, so a second outcome for the same call is dropped.
\<close>

definition settle :: "nat \<Rightarrow> 'a outcome \<Rightarrow> 'a hook \<Rightarrow> 'a hook" where
  "settle c out s =
     (if c \<in> set (pending s)
      then fetchData_settled out (s\<lparr>pending := removeAll c (pending s)\<rparr>)
      else s)"

text \<open>
  The events: the effect runs after the mount, the component is unmounted, the
  caller invokes \<open>refetch\<close>, \<open>n\<close> milliseconds pass, the promise of a call settles
  with an outcome.
\<close>

datatype 'a event = Mount | Unmount | Refetch | Advance nat | Settle nat "'a outcome"

fun step :: "options \<Rightarrow> 'a event \<Rightarrow> 'a hook \<Rightarrow> 'a hook" where
  "step opts Mount s = effect opts s"
| "step opts Unmount s = unmount s"
| "step opts Refetch s = refetch opts s"
| "step opts (Advance n) s = advance n s"
| "step opts (Settle c out) s = settle c out s"

definition run :: "options \<Rightarrow> 'a event list \<Rightarrow> 'a hook \<Rightarrow> 'a hook" where
  "run opts evs s = fold (step opts) evs s"

subsection \<open>Reachable states\<close>

text \<open>
  What holds of every state the event loop can reach from \<open>init\<close>: at most one timer is
  active and it is the one in \<open>intervalRef\<close>; every controller in use was handed out by
  the counter; every controller handed out so far is either the one in
  \<open>abortControllerRef\<close> or has been aborted; and while the component is mounted the
  controller in the ref is not aborted, and \<open>loading\<close> is true only if the call made
  with that controller is outstanding.
\<close>

definition hook_inv :: "'a hook \<Rightarrow> bool" where
  "hook_inv s \<longleftrightarrow>
     length (timers s) \<le> 1 \<and>
     list_all (\<lambda>t. intervalRef s = Some (fst t)) (timers s) \<and>
     list_all (\<lambda>c. c < nextController s) (aborted s) \<and>
     list_all (\<lambda>c. c < nextController s) (calls s) \<and>
     (case abortControllerRef s of None \<Rightarrow> True | Some c \<Rightarrow> c < nextController s) \<and>
     list_all (\<lambda>c. abortControllerRef s = Some c \<or> c \<in> set (aborted s))
       [0..<nextController s] \<and>
     (mounted s \<longrightarrow>
        (case abortControllerRef s of
           None \<Rightarrow> \<not> loading s
         | Some c \<Rightarrow> c \<notin> set (aborted s) \<and> (loading s \<longrightarrow> c \<in> set (pending s))))"

subsection \<open>Concrete options and failures\<close>

text \<open>
  The options of the tests (defaults; a period of 1000 ms; no immediate call), a
  period of one millisecond, and the two \<^verbatim>\<open>Error\<close> objects the tests reject with.
\<close>

definition opts_default :: options where
  "opts_default = \<lparr>interval = None, immediate = None\<rparr>"

definition opts_1000 :: options where
  "opts_1000 = \<lparr>interval = Some 1000, immediate = Some True\<rparr>"

definition opts_lazy :: options where
  "opts_lazy = \<lparr>interval = Some 1000, immediate = Some False\<rparr>"

definition opts_1ms :: options where
  "opts_1ms = \<lparr>interval = Some 1, immediate = Some True\<rparr>"

definition abortError :: js_error where
  "abortError = JsError ''AbortError'' ''Request aborted''"

definition apiError :: js_error where
  "apiError = JsError ''Error'' ''API Error''"

section \<open>Basic facts\<close>

subsection \<open>What each function does to each field\<close>

lemmas prim_defs = abort_def setInterval_def clearInterval_def apiCall_def
  newAbortController_def setData_def setLoading_def setError_def

lemma filter_absent: "h \<notin> fst ` set ts \<Longrightarrow> filter (\<lambda>t. fst t \<noteq> h) ts = ts"
  by (induction ts) auto

lemma preamble_fields [simp]:
  "data (preamble s) = data s"
  "loading (preamble s) = (mounted s \<or> loading s)"
  "error (preamble s) = (if mounted s then None else error s)"
  "mounted (preamble s) = mounted s"
  "abortControllerRef (preamble s) = Some (nextController s)"
  "nextController (preamble s) = Suc (nextController s)"
  "aborted (preamble s) = (case abortControllerRef s of None \<Rightarrow> aborted s | Some c \<Rightarrow> List.insert c (aborted s))"
  "timers (preamble s) = timers s"
  "intervalRef (preamble s) = intervalRef s"
  "nextTimer (preamble s) = nextTimer s"
  "now (preamble s) = now s"
  "calls (preamble s) = calls s"
  "pending (preamble s) = pending s"
  by (simp_all add: preamble_def prim_defs Let_def List.insert_def split: option.splits)


lemma fetchData_eq: "fetchData s = apiCall (nextController s) (preamble s)"
  by (simp add: fetchData_def Let_def)

lemma fetchData_fields [simp]:
  "data (fetchData s) = data s"
  "loading (fetchData s) = (mounted s \<or> loading s)"
  "error (fetchData s) = (if mounted s then None else error s)"
  "mounted (fetchData s) = mounted s"
  "abortControllerRef (fetchData s) = Some (nextController s)"
  "nextController (fetchData s) = Suc (nextController s)"
  "aborted (fetchData s) = (case abortControllerRef s of None \<Rightarrow> aborted s | Some c \<Rightarrow> List.insert c (aborted s))"
  "timers (fetchData s) = timers s"
  "intervalRef (fetchData s) = intervalRef s"
  "nextTimer (fetchData s) = nextTimer s"
  "now (fetchData s) = now s"
  "calls (fetchData s) = calls s @ [nextController s]"
  "pending (fetchData s) = pending s @ [nextController s]"
  by (simp_all add: fetchData_eq apiCall_def)


lemma startInterval_fields [simp]:
  "data (startInterval opts s) = data s"
  "loading (startInterval opts s) = loading s"
  "error (startInterval opts s) = error s"
  "mounted (startInterval opts s) = mounted s"
  "abortControllerRef (startInterval opts s) = abortControllerRef s"
  "nextController (startInterval opts s) = nextController s"
  "aborted (startInterval opts s) = aborted s"
  "intervalRef (startInterval opts s) = Some (nextTimer s)"
  "nextTimer (startInterval opts s) = Suc (nextTimer s)"
  "now (startInterval opts s) = now s"
  "calls (startInterval opts s) = calls s"
  "pending (startInterval opts s) = pending s"
  "timers (startInterval opts s) =
     (case intervalRef s of None \<Rightarrow> timers s | Some h \<Rightarrow> filter (\<lambda>t. fst t \<noteq> h) (timers s))
     @ [(nextTimer s, now s + period (interval_of opts), period (interval_of opts))]"
  by (simp_all add: startInterval_def prim_defs Let_def filter_absent split: option.splits)

lemma cleanup_fields [simp]:
  "data (cleanup s) = data s"
  "loading (cleanup s) = loading s"
  "error (cleanup s) = error s"
  "mounted (cleanup s) = mounted s"
  "abortControllerRef (cleanup s) = abortControllerRef s"
  "nextController (cleanup s) = nextController s"
  "aborted (cleanup s) = (case abortControllerRef s of None \<Rightarrow> aborted s | Some c \<Rightarrow> List.insert c (aborted s))"
  "intervalRef (cleanup s) = intervalRef s"
  "nextTimer (cleanup s) = nextTimer s"
  "now (cleanup s) = now s"
  "calls (cleanup s) = calls s"
  "pending (cleanup s) = pending s"
  "timers (cleanup s) =
     (case intervalRef s of None \<Rightarrow> timers s | Some h \<Rightarrow> filter (\<lambda>t. fst t \<noteq> h) (timers s))"
  by (auto simp: cleanup_def prim_defs Let_def List.insert_def filter_absent split: option.splits)

lemma unmount_fields [simp]:
  "data (unmount s) = data s"
  "loading (unmount s) = loading s"
  "error (unmount s) = error s"
  "mounted (unmount s) = False"
  "abortControllerRef (unmount s) = abortControllerRef s"
  "nextController (unmount s) = nextController s"
  "aborted (unmount s) = aborted (cleanup s)"
  "intervalRef (unmount s) = intervalRef s"
  "nextTimer (unmount s) = nextTimer s"
  "now (unmount s) = now s"
  "calls (unmount s) = calls s"
  "pending (unmount s) = pending s"
  "timers (unmount s) = timers (cleanup s)"
  by (simp_all add: unmount_def)

lemma fetchData_settled_fields [simp]:
  "loading (fetchData_settled out s) = (\<not> mounted s \<and> loading s)"
  "mounted (fetchData_settled out s) = mounted s"
  "abortControllerRef (fetchData_settled out s) = abortControllerRef s"
  "nextController (fetchData_settled out s) = nextController s"
  "aborted (fetchData_settled out s) = aborted s"
  "intervalRef (fetchData_settled out s) = intervalRef s"
  "nextTimer (fetchData_settled out s) = nextTimer s"
  "now (fetchData_settled out s) = now s"
  "calls (fetchData_settled out s) = calls s"
  "pending (fetchData_settled out s) = pending s"
  "timers (fetchData_settled out s) = timers s"
  by (auto simp: fetchData_settled_def prim_defs Let_def split: outcome.splits thrown.splits)

lemma fetchData_settled_data:
  "data (fetchData_settled out s) =
     (if mounted s
      then (case out of Resolved v \<Rightarrow> Some v
            | Rejected (ThrownError e) \<Rightarrow> if name e \<noteq> ''AbortError'' then None else data s
            | Rejected (ThrownOther v) \<Rightarrow> data s)
      else data s)"
  by (simp add: fetchData_settled_def prim_defs Let_def split: outcome.splits thrown.splits)

lemma fetchData_settled_error:
  "error (fetchData_settled out s) =
     (if mounted s
      then (case out of Resolved v \<Rightarrow> None
            | Rejected (ThrownError e) \<Rightarrow> if name e \<noteq> ''AbortError'' then Some e else error s
            | Rejected (ThrownOther v) \<Rightarrow> error s)
      else error s)"
  by (simp add: fetchData_settled_def prim_defs Let_def split: outcome.splits thrown.splits)

lemma settle_pending:
  "c \<in> set (pending s) \<Longrightarrow>
   settle c out s = fetchData_settled out (s\<lparr>pending := removeAll c (pending s)\<rparr>)"
  by (simp add: settle_def)

lemma settle_not_pending: "c \<notin> set (pending s) \<Longrightarrow> settle c out s = s"
  by (simp add: settle_def)

lemma settle_frame [simp]:
  "mounted (settle c out s) = mounted s"
  "abortControllerRef (settle c out s) = abortControllerRef s"
  "nextController (settle c out s) = nextController s"
  "aborted (settle c out s) = aborted s"
  "intervalRef (settle c out s) = intervalRef s"
  "nextTimer (settle c out s) = nextTimer s"
  "now (settle c out s) = now s"
  "calls (settle c out s) = calls s"
  "timers (settle c out s) = timers s"
  by (simp_all add: settle_def)

subsection \<open>Ticks leave \<open>data\<close> alone\<close>

lemma fire_data [simp]: "data (fire t s) = data s"
  by (simp add: fire_def)

lemma fold_fire_data [simp]: "data (fold fire ts s) = data s"
  by (induction ts arbitrary: s) simp_all

lemma elapse_data [simp]: "data (elapse s) = data s"
  by (simp add: elapse_def Let_def)

lemma advance_data [simp]: "data (advance n s) = data s"
  by (induction n arbitrary: s) simp_all

subsection \<open>Time with no timer and with one timer\<close>

lemma elapse_no_timer: "timers s = [] \<Longrightarrow> elapse s = s\<lparr>now := Suc (now s)\<rparr>"
  by (simp add: elapse_def Let_def)

lemma advance_no_timer: "timers s = [] \<Longrightarrow> advance n s = s\<lparr>now := now s + n\<rparr>"
proof (induction n arbitrary: s)
  case 0
  then show ?case by simp
next
  case (Suc n)
  have "timers (elapse s) = []" "now (elapse s) = Suc (now s)"
    using Suc.prems by (simp_all add: elapse_no_timer)
  then show ?case
    using Suc.IH [of "elapse s"] Suc.prems by (simp add: elapse_no_timer)
qed

lemma elapse_before_due:
  "timers s = [(h, d, p)] \<Longrightarrow> Suc (now s) < d \<Longrightarrow> elapse s = s\<lparr>now := Suc (now s)\<rparr>"
  by (simp add: elapse_def Let_def)

lemma elapse_at_due:
  "timers s = [(h, d, p)] \<Longrightarrow> d \<le> Suc (now s) \<Longrightarrow>
   elapse s = fetchData (s\<lparr>now := Suc (now s), timers := [(h, d + p, p)]\<rparr>)"
  by (simp add: elapse_def Let_def fire_def)

lemma advance_before_due:
  "timers s = [(h, d, p)] \<Longrightarrow> now s + n < d \<Longrightarrow> advance n s = s\<lparr>now := now s + n\<rparr>"
proof (induction n arbitrary: s)
  case 0
  then show ?case by simp
next
  case (Suc n)
  have e: "elapse s = s\<lparr>now := Suc (now s)\<rparr>"
    using Suc.prems by (simp add: elapse_before_due)
  have "advance n (elapse s) = (elapse s)\<lparr>now := now (elapse s) + n\<rparr>"
    using Suc.prems by (intro Suc.IH) (simp_all add: e)
  then show ?case by (simp add: e)
qed

lemma advance_add: "advance (m + n) s = advance n (advance m s)"
  by (induction m arbitrary: s) simp_all

lemma advance_to_due:
  assumes "timers s = [(h, d, p)]" and "now s < d"
  shows "advance (d - now s) s = fetchData (s\<lparr>now := d, timers := [(h, d + p, p)]\<rparr>)"
proof -
  define k where "k = d - now s - 1"
  have dk: "d - now s = k + 1" using assms(2) by (simp add: k_def)
  have a: "advance k s = s\<lparr>now := now s + k\<rparr>"
    using assms by (intro advance_before_due) (auto simp: k_def)
  have "advance (d - now s) s = elapse (advance k s)"
    unfolding dk advance_add by simp
  also have "\<dots> = fetchData (s\<lparr>now := now s + k, now := Suc (now s + k), timers := [(h, d + p, p)]\<rparr>)"
    unfolding a using assms by (subst elapse_at_due [of _ h d p]) (simp_all add: k_def)
  also have "Suc (now s + k) = d" using assms(2) by (simp add: k_def)
  finally show ?thesis by simp
qed

subsection \<open>The invariant of the reachable states\<close>

lemma hook_inv_iff:
  "hook_inv s \<longleftrightarrow>
     length (timers s) \<le> 1 \<and>
     (\<forall>t\<in>set (timers s). intervalRef s = Some (fst t)) \<and>
     (\<forall>c\<in>set (aborted s). c < nextController s) \<and>
     (\<forall>c\<in>set (calls s). c < nextController s) \<and>
     (\<forall>c. abortControllerRef s = Some c \<longrightarrow> c < nextController s) \<and>
     (\<forall>c<nextController s. abortControllerRef s = Some c \<or> c \<in> set (aborted s)) \<and>
     (mounted s \<longrightarrow>
        (\<forall>c. abortControllerRef s = Some c \<longrightarrow> c \<notin> set (aborted s)) \<and>
        (loading s \<longrightarrow> (\<exists>c. abortControllerRef s = Some c \<and> c \<in> set (pending s))))"
  by (auto simp: hook_inv_def list_all_iff split: option.splits)

lemma hook_inv_init: "hook_inv init"
  by (simp add: hook_inv_def init_def)

lemma hook_inv_fetchData: "hook_inv s \<Longrightarrow> hook_inv (fetchData s)"
  unfolding hook_inv_iff
  by (auto simp: less_Suc_eq split: option.splits)

lemma hook_inv_timers_cleared:
  "hook_inv s \<Longrightarrow> intervalRef s = Some h \<Longrightarrow> filter (\<lambda>t. fst t \<noteq> h) (timers s) = []"
  unfolding hook_inv_iff by (auto simp: filter_empty_conv)

lemma hook_inv_no_ref: "hook_inv s \<Longrightarrow> intervalRef s = None \<Longrightarrow> timers s = []"
  unfolding hook_inv_iff by (cases "timers s") auto

lemma startInterval_timers:
  "hook_inv s \<Longrightarrow>
   timers (startInterval opts s) =
     [(nextTimer s, now s + period (interval_of opts), period (interval_of opts))]"
  by (cases "intervalRef s") (simp_all add: hook_inv_timers_cleared hook_inv_no_ref)

lemma hook_inv_startInterval: "hook_inv s \<Longrightarrow> hook_inv (startInterval opts s)"
  using startInterval_timers [of s opts]
  unfolding hook_inv_iff by simp

lemma cleanup_timers: "hook_inv s \<Longrightarrow> timers (cleanup s) = []"
  by (cases "intervalRef s") (simp_all add: hook_inv_timers_cleared hook_inv_no_ref)

lemma hook_inv_unmount: "hook_inv s \<Longrightarrow> hook_inv (unmount s)"
  using cleanup_timers [of s]
  unfolding hook_inv_iff by (auto split: option.splits)

lemma hook_inv_settle: "hook_inv s \<Longrightarrow> hook_inv (settle c out s)"
proof (cases "c \<in> set (pending s)")
  case True
  assume "hook_inv s"
  then show ?thesis
    unfolding hook_inv_iff by (simp add: settle_pending [OF True])
next
  case False
  assume "hook_inv s"
  then show ?thesis
    by (simp add: settle_not_pending [OF False])
qed

lemma hook_inv_fire: "hook_inv s \<Longrightarrow> hook_inv (fire t s)"
proof -
  assume inv: "hook_inv s"
  let ?s' = "s\<lparr>timers := map (\<lambda>u. if fst u = fst t
                 then (fst u, fst (snd u) + snd (snd u), snd (snd u)) else u) (timers s)\<rparr>"
  have "hook_inv ?s'"
    using inv unfolding hook_inv_iff by auto
  then show ?thesis
    using inv by (simp add: fire_def hook_inv_fetchData)
qed

lemma hook_inv_fold_fire: "hook_inv s \<Longrightarrow> hook_inv (fold fire ts s)"
  by (induction ts arbitrary: s) (simp_all add: hook_inv_fire)

lemma hook_inv_elapse: "hook_inv s \<Longrightarrow> hook_inv (elapse s)"
proof -
  assume "hook_inv s"
  then have "hook_inv (s\<lparr>now := Suc (now s)\<rparr>)"
    unfolding hook_inv_iff by simp
  then show ?thesis
    by (simp add: elapse_def Let_def hook_inv_fold_fire)
qed

lemma hook_inv_advance: "hook_inv s \<Longrightarrow> hook_inv (advance n s)"
  by (induction n arbitrary: s) (simp_all add: hook_inv_elapse)

lemma hook_inv_step: "hook_inv s \<Longrightarrow> hook_inv (step opts ev s)"
  by (cases ev)
    (simp_all add: effect_def refetch_def hook_inv_startInterval hook_inv_fetchData
      hook_inv_unmount hook_inv_advance hook_inv_settle)

lemma hook_inv_fold_step: "hook_inv s \<Longrightarrow> hook_inv (fold (step opts) evs s)"
  by (induction evs arbitrary: s) (simp_all add: hook_inv_step)

lemma hook_inv_run: "hook_inv (run opts evs init)"
  by (simp add: run_def hook_inv_fold_step hook_inv_init)

subsection \<open>Consequences of the invariant\<close>





subsection \<open>A freshly armed timer\<close>

lemma period_pos: "0 < period ms"
  by (simp add: period_def)


lemma period_out_of_range: "ms < 1 \<or> 2147483647 < ms \<Longrightarrow> period ms = 1"
  by (simp add: period_def)

lemma armed_quiet:
  assumes "timers r = [(h, now r + P, P)]" and "n < P"
  shows "advance n r = r\<lparr>now := now r + n\<rparr>"
  using assms by (intro advance_before_due [of r h "now r + P" P]) simp_all

lemma armed_tick:
  assumes "timers r = [(h, now r + P, P)]" and "0 < P"
  shows "advance P r = fetchData (r\<lparr>now := now r + P, timers := [(h, now r + P + P, P)]\<rparr>)"
  using advance_to_due [of r h "now r + P" P] assms by simp

subsection \<open>Cleanup twice\<close>

lemma clearInterval_dead: "h \<notin> fst ` set (timers s) \<Longrightarrow> clearInterval h s = s"
  by (simp add: clearInterval_def)

lemma abort_aborted: "c \<in> set (aborted s) \<Longrightarrow> abort c s = s"
  by (simp add: abort_def)

lemma cleanup_nothing_to_do:
  assumes "case intervalRef t of None \<Rightarrow> True | Some h \<Rightarrow> h \<notin> fst ` set (timers t)"
    and "case abortControllerRef t of None \<Rightarrow> True | Some c \<Rightarrow> c \<in> set (aborted t)"
  shows "cleanup t = t"
  using assms
  by (cases "intervalRef t"; cases "abortControllerRef t")
    (simp_all add: cleanup_def clearInterval_dead abort_aborted)

lemma cleanup_idem: "cleanup (cleanup s) = cleanup s"
proof (rule cleanup_nothing_to_do)
  show "case intervalRef (cleanup s) of None \<Rightarrow> True
        | Some h \<Rightarrow> h \<notin> fst ` set (timers (cleanup s))"
    by (cases "intervalRef s") auto
  show "case abortControllerRef (cleanup s) of None \<Rightarrow> True
        | Some c \<Rightarrow> c \<in> set (aborted (cleanup s))"
    by (cases "abortControllerRef s") simp_all
qed

subsection \<open>Resolutions and the active controller\<close>

lemma setters_ignore_active_token:
  "setData v (s\<lparr>abortControllerRef := r\<rparr>) = (setData v s)\<lparr>abortControllerRef := r\<rparr>"
  "setError e (s\<lparr>abortControllerRef := r\<rparr>) = (setError e s)\<lparr>abortControllerRef := r\<rparr>"
  "setLoading b (s\<lparr>abortControllerRef := r\<rparr>) = (setLoading b s)\<lparr>abortControllerRef := r\<rparr>"
  by (simp_all add: setData_def setError_def setLoading_def)

lemma fetchData_settled_ignores_active_token:
  "fetchData_settled out (s\<lparr>abortControllerRef := r\<rparr>)
     = (fetchData_settled out s)\<lparr>abortControllerRef := r\<rparr>"
proof (cases out)
  case (Resolved v)
  then show ?thesis
    by (simp add: fetchData_settled_def setters_ignore_active_token)
next
  case (Rejected err)
  then show ?thesis
    by (cases err) (simp_all add: fetchData_settled_def setters_ignore_active_token)
qed

lemma ref_pending_swap:
  "s\<lparr>abortControllerRef := r, pending := p\<rparr> = s\<lparr>pending := p, abortControllerRef := r\<rparr>"
  by (cases s) simp

lemma settle_ignores_active_token:
  "settle c out (s\<lparr>abortControllerRef := r\<rparr>) = (settle c out s)\<lparr>abortControllerRef := r\<rparr>"
proof (cases "c \<in> set (pending s)")
  case True
  let ?t = "s\<lparr>pending := removeAll c (pending s)\<rparr>"
  have "settle c out (s\<lparr>abortControllerRef := r\<rparr>)
          = fetchData_settled out (?t\<lparr>abortControllerRef := r\<rparr>)"
    using True by (simp add: settle_def ref_pending_swap)
  also have "\<dots> = (fetchData_settled out ?t)\<lparr>abortControllerRef := r\<rparr>"
    by (rule fetchData_settled_ignores_active_token)
  also have "\<dots> = (settle c out s)\<lparr>abortControllerRef := r\<rparr>"
    using True by (simp add: settle_def)
  finally show ?thesis .
next
  case False
  then show ?thesis by (simp add: settle_def)
qed

lemma step_data:
  "data (step opts ev s) =
     (case ev of
        Settle c out \<Rightarrow>
          if c \<in> set (pending s) \<and> mounted s
          then (case out of
                  Resolved v \<Rightarrow> Some v
                | Rejected (ThrownError e) \<Rightarrow> if name e \<noteq> ''AbortError'' then None else data s
                | Rejected (ThrownOther v) \<Rightarrow> data s)
          else data s
      | _ \<Rightarrow> data s)"
  by (cases ev)
    (simp_all add: effect_def refetch_def settle_def fetchData_settled_data
      split: outcome.splits thrown.splits)

subsection \<open>Concrete runs\<close>

lemmas hook_defs = run_def init_def effect_def refetch_def startInterval_def fetchData_def
  preamble_def cleanup_def unmount_def settle_def fetchData_settled_def abort_def
  setInterval_def clearInterval_def apiCall_def newAbortController_def setData_def
  setLoading_def setError_def immediate_of_def interval_of_def period_def
  elapse_def fire_def

lemmas scenario_defs = opts_default_def opts_1000_def opts_lazy_def opts_1ms_def
  abortError_def apiError_def

lemma run_snoc: "run opts (evs @ [ev]) s = step opts ev (run opts evs s)"
  by (simp add: run_def)

lemma mount_1000:
  "data (run opts_1000 [Mount] (init :: nat hook)) = None"
  "loading (run opts_1000 [Mount] (init :: nat hook))"
  "mounted (run opts_1000 [Mount] (init :: nat hook))"
  "abortControllerRef (run opts_1000 [Mount] (init :: nat hook)) = Some 0"
  "nextController (run opts_1000 [Mount] (init :: nat hook)) = 1"
  "timers (run opts_1000 [Mount] (init :: nat hook)) = [(1, 1000, 1000)]"
  "nextTimer (run opts_1000 [Mount] (init :: nat hook)) = 2"
  "now (run opts_1000 [Mount] (init :: nat hook)) = 0"
  "calls (run opts_1000 [Mount] (init :: nat hook)) = [0]"
  "pending (run opts_1000 [Mount] (init :: nat hook)) = [0]"
  "aborted (run opts_1000 [Mount] (init :: nat hook)) = []"
  by (simp_all add: hook_defs scenario_defs)

lemma first_1000:
  "data (run opts_1000 [Mount, Settle 0 (Resolved 1)] (init :: nat hook)) = Some 1"
  "\<not> loading (run opts_1000 [Mount, Settle 0 (Resolved 1)] (init :: nat hook))"
  "mounted (run opts_1000 [Mount, Settle 0 (Resolved 1)] (init :: nat hook))"
  "abortControllerRef (run opts_1000 [Mount, Settle 0 (Resolved 1)] (init :: nat hook)) = Some 0"
  "nextController (run opts_1000 [Mount, Settle 0 (Resolved 1)] (init :: nat hook)) = 1"
  "timers (run opts_1000 [Mount, Settle 0 (Resolved 1)] (init :: nat hook)) = [(1, 1000, 1000)]"
  "now (run opts_1000 [Mount, Settle 0 (Resolved 1)] (init :: nat hook)) = 0"
  "calls (run opts_1000 [Mount, Settle 0 (Resolved 1)] (init :: nat hook)) = [0]"
  "pending (run opts_1000 [Mount, Settle 0 (Resolved 1)] (init :: nat hook)) = []"
  by (simp_all add: hook_defs scenario_defs)

lemma tick_1000_eq:
  "run opts_1000 [Mount, Settle 0 (Resolved 1), Advance 1000] (init :: nat hook) =
     fetchData ((run opts_1000 [Mount, Settle 0 (Resolved 1)] (init :: nat hook))
                  \<lparr>now := 1000, timers := [(1, 2000, 1000)]\<rparr>)"
proof -
  let ?s = "run opts_1000 [Mount, Settle 0 (Resolved 1)] (init :: nat hook)"
  have "run opts_1000 ([Mount, Settle 0 (Resolved 1)] @ [Advance 1000]) (init :: nat hook)
          = advance (1000 - now ?s) ?s"
    unfolding run_snoc first_1000 by simp
  also have "\<dots> = fetchData (?s\<lparr>now := 1000, timers := [(1, 1000 + 1000, 1000)]\<rparr>)"
  proof (rule advance_to_due)
    show "timers ?s = [(1, 1000, 1000)]" by (fact first_1000)
    show "now ?s < 1000" unfolding first_1000 by simp
  qed
  finally show ?thesis by simp
qed

lemma tick_1000:
  "data (run opts_1000 [Mount, Settle 0 (Resolved 1), Advance 1000] (init :: nat hook)) = Some 1"
  "loading (run opts_1000 [Mount, Settle 0 (Resolved 1), Advance 1000] (init :: nat hook))"
  "mounted (run opts_1000 [Mount, Settle 0 (Resolved 1), Advance 1000] (init :: nat hook))"
  "pending (run opts_1000 [Mount, Settle 0 (Resolved 1), Advance 1000] (init :: nat hook)) = [1]"
proof -
  let ?s = "run opts_1000 [Mount, Settle 0 (Resolved 1)] (init :: nat hook)"
  let ?t = "?s\<lparr>now := 1000, timers := [(1, 2000, 1000)]\<rparr>"
  have t: "data ?t = Some 1" "mounted ?t" "pending ?t = []" "nextController ?t = 1"
    using first_1000 by simp_all
  show "data (run opts_1000 [Mount, Settle 0 (Resolved 1), Advance 1000] (init :: nat hook)) = Some 1"
    unfolding tick_1000_eq fetchData_fields t by simp
  show "loading (run opts_1000 [Mount, Settle 0 (Resolved 1), Advance 1000] (init :: nat hook))"
    unfolding tick_1000_eq fetchData_fields using t by simp
  show "mounted (run opts_1000 [Mount, Settle 0 (Resolved 1), Advance 1000] (init :: nat hook))"
    unfolding tick_1000_eq fetchData_fields using t by simp
  show "pending (run opts_1000 [Mount, Settle 0 (Resolved 1), Advance 1000] (init :: nat hook)) = [1]"
    unfolding tick_1000_eq fetchData_fields t by simp
qed



section \<open>The claims\<close>

subsection \<open>Failures of the fetch function\<close>

text \<open>
  Claim C3 (cancellation swallowing). When the promise of a request rejects with an
  \<^verbatim>\<open>Error\<close> whose name is \<^verbatim>\<open>AbortError\<close>, the rest of \<open>fetchData\<close> leaves \<open>data\<close>
  and \<open>error\<close> as they were: \<open>error\<close> is not set and \<open>data\<close> is not modified. This
  holds of the continuation itself and of the \<open>Settle\<close> event, for every state and
  every request.
\<close>

theorem cancellation_swallowed:
  assumes "name e = ''AbortError''"
  shows "data (fetchData_settled (Rejected (ThrownError e)) s) = data s \<and>
         error (fetchData_settled (Rejected (ThrownError e)) s) = error s \<and>
         data (settle c (Rejected (ThrownError e)) s) = data s \<and>
         error (settle c (Rejected (ThrownError e)) s) = error s"
  using assms by (simp add: settle_def fetchData_settled_data fetchData_settled_error)

theorem cancellation_swallowed_witness:
  "name abortError = ''AbortError'' \<and>
   data (run opts_default [Mount, Settle 0 (Resolved 7), Refetch] init) = Some (7::nat) \<and>
   data (settle 1 (Rejected (ThrownError abortError))
          (run opts_default [Mount, Settle 0 (Resolved 7), Refetch] init)) = Some (7::nat) \<and>
   error (settle 1 (Rejected (ThrownError abortError))
          (run opts_default [Mount, Settle 0 (Resolved 7), Refetch] init :: nat hook)) = None"
  using cancellation_swallowed [of abortError
      "run opts_default [Mount, Settle 0 (Resolved 7), Refetch] init :: nat hook" 1]
  by (simp add: hook_defs scenario_defs)

text \<open>
  Claim C4 (operation failure). While the component is mounted, when the promise of
  an outstanding request rejects with an \<^verbatim>\<open>Error\<close> whose name is not
  \<^verbatim>\<open>AbortError\<close>, then after the resolution \<open>error\<close> is that failure, \<open>data\<close> is
  absent whatever it was before, and \<open>loading\<close> is false.
\<close>

theorem operation_failure_surfaced:
  assumes "mounted s" and "c \<in> set (pending s)" and "name e \<noteq> ''AbortError''"
  shows "error (settle c (Rejected (ThrownError e)) s) = Some e \<and>
         data (settle c (Rejected (ThrownError e)) s) = None \<and>
         \<not> loading (settle c (Rejected (ThrownError e)) s)"
  using assms by (simp add: settle_pending fetchData_settled_data fetchData_settled_error)

theorem operation_failure_surfaced_witness:
  "mounted (run opts_default [Mount, Settle 0 (Resolved 7), Refetch] init :: nat hook) \<and>
   1 \<in> set (pending (run opts_default [Mount, Settle 0 (Resolved 7), Refetch] init :: nat hook)) \<and>
   name apiError \<noteq> ''AbortError'' \<and>
   data (run opts_default [Mount, Settle 0 (Resolved 7), Refetch] init) = Some (7::nat) \<and>
   error (settle 1 (Rejected (ThrownError apiError))
          (run opts_default [Mount, Settle 0 (Resolved 7), Refetch] init :: nat hook)) = Some apiError \<and>
   data (settle 1 (Rejected (ThrownError apiError))
          (run opts_default [Mount, Settle 0 (Resolved 7), Refetch] init :: nat hook)) = None \<and>
   \<not> loading (settle 1 (Rejected (ThrownError apiError))
          (run opts_default [Mount, Settle 0 (Resolved 7), Refetch] init :: nat hook))"
proof -
  let ?s = "run opts_default [Mount, Settle 0 (Resolved 7), Refetch] init :: nat hook"
  have m: "mounted ?s" and p: "1 \<in> set (pending ?s)" and d: "data ?s = Some 7"
    by (simp_all add: hook_defs scenario_defs)
  have n: "name apiError \<noteq> ''AbortError''"
    by (simp add: apiError_def)
  show ?thesis
    using operation_failure_surfaced [OF m p n] m p n d by simp
qed

text \<open>
  Claim C5 (failures that are not \<^verbatim>\<open>Error\<close> objects). While the component is
  mounted, when the promise of an outstanding request rejects with a value that is not
  an instance of \<^verbatim>\<open>Error\<close>, such as a plain string, then \<open>error\<close> is not set, \<open>data\<close>
  is not cleared, and \<open>loading\<close> is cleared to false all the same.
\<close>

theorem non_error_rejection_dropped:
  assumes "mounted s" and "c \<in> set (pending s)"
  shows "error (settle c (Rejected (ThrownOther v)) s) = error s \<and>
         data (settle c (Rejected (ThrownOther v)) s) = data s \<and>
         \<not> loading (settle c (Rejected (ThrownOther v)) s)"
  using assms by (simp add: settle_pending fetchData_settled_data fetchData_settled_error)

theorem non_error_rejection_dropped_witness:
  "mounted (run opts_default [Mount, Settle 0 (Resolved 7), Refetch] init :: nat hook) \<and>
   1 \<in> set (pending (run opts_default [Mount, Settle 0 (Resolved 7), Refetch] init :: nat hook)) \<and>
   error (settle 1 (Rejected (ThrownOther ''String error''))
          (run opts_default [Mount, Settle 0 (Resolved 7), Refetch] init :: nat hook)) = None \<and>
   data (settle 1 (Rejected (ThrownOther ''String error''))
          (run opts_default [Mount, Settle 0 (Resolved 7), Refetch] init)) = Some (7::nat) \<and>
   \<not> loading (settle 1 (Rejected (ThrownOther ''String error''))
          (run opts_default [Mount, Settle 0 (Resolved 7), Refetch] init :: nat hook))"
proof -
  let ?s = "run opts_default [Mount, Settle 0 (Resolved 7), Refetch] init :: nat hook"
  have m: "mounted ?s" and p: "1 \<in> set (pending ?s)"
    and d: "data ?s = Some 7" "error ?s = None"
    by (simp_all add: hook_defs scenario_defs)
  show ?thesis
    using non_error_rejection_dropped [OF m p, of "''String error''"] m p d by simp
qed

subsection \<open>Issuing a request\<close>



text \<open>
  Claim C9 (issuance leaves \<open>data\<close> alone). \<open>fetchData\<close> up to its \<^verbatim>\<open>await\<close> does not
  change \<open>data\<close>; while the component is mounted it sets \<open>loading\<close> and clears
  \<open>error\<close>. Of all events only the resolution of an outstanding request of a mounted
  component changes \<open>data\<close>: to the result on success, to absent on an \<^verbatim>\<open>Error\<close>
  that is not an \<^verbatim>\<open>AbortError\<close>. With a period of 1000 ms the values of \<open>data\<close> are
  absent, 1, 1 while the second request loads, then 2.
\<close>

theorem data_untouched_by_issuance:
  "data (fetchData s) = data s \<and>
   (mounted s \<longrightarrow> loading (fetchData s) \<and> error (fetchData s) = None) \<and>
   data (step opts ev s) =
     (case ev of
        Settle c out \<Rightarrow>
          if c \<in> set (pending s) \<and> mounted s
          then (case out of
                  Resolved v \<Rightarrow> Some v
                | Rejected (ThrownError e) \<Rightarrow> if name e \<noteq> ''AbortError'' then None else data s
                | Rejected (ThrownOther v) \<Rightarrow> data s)
          else data s
      | _ \<Rightarrow> data s)"
  by (simp add: step_data)

theorem data_untouched_by_issuance_witness:
  "data (run opts_1000 [Mount] init) = (None :: nat option) \<and>
   data (run opts_1000 [Mount, Settle 0 (Resolved 1)] init) = Some (1::nat) \<and>
   data (run opts_1000 [Mount, Settle 0 (Resolved 1), Advance 1000] init) = Some (1::nat) \<and>
   loading (run opts_1000 [Mount, Settle 0 (Resolved 1), Advance 1000] (init :: nat hook)) \<and>
   mounted (run opts_1000 [Mount, Settle 0 (Resolved 1), Advance 1000] (init :: nat hook)) \<and>
   data (run opts_1000 [Mount, Settle 0 (Resolved 1), Advance 1000, Settle 1 (Resolved 2)] init)
     = Some (2::nat)"
proof -
  let ?s1 = "run opts_1000 [Mount, Settle 0 (Resolved 1)] (init :: nat hook)"
  let ?s2 = "run opts_1000 [Mount, Settle 0 (Resolved 1), Advance 1000] (init :: nat hook)"
  have p: "1 \<in> set (pending ?s2)"
    unfolding tick_1000 by simp
  have b: "data (step opts_1000 (Settle 1 (Resolved 2)) ?s2) = Some 2"
    using data_untouched_by_issuance [of ?s2 opts_1000 "Settle 1 (Resolved 2)"] p tick_1000(3)
    by simp
  have c: "run opts_1000 [Mount, Settle 0 (Resolved 1), Advance 1000, Settle 1 (Resolved 2)] (init :: nat hook)
             = step opts_1000 (Settle 1 (Resolved 2)) ?s2"
    by (simp add: run_def)
  show ?thesis
    unfolding c by (intro conjI) (fact mount_1000 first_1000 tick_1000 b)+
qed

subsection \<open>Superseded requests\<close>

text \<open>
  Claim C1 (single flight), as stated: only the resolution of the most recently issued
  request may change \<open>data\<close> and \<open>error\<close>, a superseded request's resolution changes
  nothing even when it resolves with a value, because the writes are guarded by a
  check of the active controller. The continuation of \<open>fetchData\<close> has no such check.
  The run below mounts (request 0), refetches (request 1, which aborts controller 0),
  lets request 1 resolve with 2 and then request 0, whose fetch function did not act on
  the abort signal, resolve with 1: the superseded request overwrites \<open>data\<close> while
  the component is mounted.
\<close>

theorem superseded_success_overwrites:
  "mounted (run opts_default [Mount, Refetch, Settle 1 (Resolved 2)] (init :: nat hook)) \<and>
   abortControllerRef (run opts_default [Mount, Refetch, Settle 1 (Resolved 2)] (init :: nat hook)) = Some 1 \<and>
   0 \<in> set (aborted (run opts_default [Mount, Refetch, Settle 1 (Resolved 2)] (init :: nat hook))) \<and>
   0 \<in> set (pending (run opts_default [Mount, Refetch, Settle 1 (Resolved 2)] (init :: nat hook))) \<and>
   data (run opts_default [Mount, Refetch, Settle 1 (Resolved 2)] init) = Some (2::nat) \<and>
   data (settle 0 (Resolved 1) (run opts_default [Mount, Refetch, Settle 1 (Resolved 2)] init))
     = Some (1::nat)"
  by (simp add: hook_defs scenario_defs)

text \<open>
  Claim C1, amended. Issuing a request aborts the controller of the request before
  it, and a superseded request that then fails with an \<^verbatim>\<open>AbortError\<close> changes neither
  \<open>data\<close> nor \<open>error\<close>. The writes are not guarded by a check of the active
  controller: what a resolution does to the state is the same whichever controller is
  in \<open>abortControllerRef\<close>, so while the component is mounted a superseded request
  that resolves with a value \<open>v\<close> sets \<open>data\<close> to \<open>v\<close> and clears \<open>error\<close>.
\<close>

theorem superseded_resolution_unguarded:
  assumes "mounted s" and "c \<in> set (pending s)" and "abortControllerRef s \<noteq> Some c"
  shows "(name e = ''AbortError'' \<longrightarrow>
            data (settle c (Rejected (ThrownError e)) s) = data s \<and>
            error (settle c (Rejected (ThrownError e)) s) = error s) \<and>
         data (settle c (Resolved v) s) = Some v \<and>
         error (settle c (Resolved v) s) = None \<and>
         settle c out (s\<lparr>abortControllerRef := r\<rparr>) = (settle c out s)\<lparr>abortControllerRef := r\<rparr> \<and>
         (case abortControllerRef s of None \<Rightarrow> True
          | Some a \<Rightarrow> a \<in> set (aborted (fetchData s)))"
  using assms
  by (simp add: settle_pending fetchData_settled_data fetchData_settled_error
      settle_ignores_active_token split: option.splits)

theorem superseded_resolution_unguarded_witness:
  "mounted (run opts_default [Mount, Refetch, Settle 1 (Resolved 2)] (init :: nat hook)) \<and>
   0 \<in> set (pending (run opts_default [Mount, Refetch, Settle 1 (Resolved 2)] (init :: nat hook))) \<and>
   abortControllerRef (run opts_default [Mount, Refetch, Settle 1 (Resolved 2)] (init :: nat hook)) \<noteq> Some 0 \<and>
   data (settle 0 (Rejected (ThrownError abortError))
          (run opts_default [Mount, Refetch, Settle 1 (Resolved 2)] init)) = Some (2::nat) \<and>
   data (settle 0 (Resolved 1)
          (run opts_default [Mount, Refetch, Settle 1 (Resolved 2)] init)) = Some (1::nat)"
proof -
  let ?s = "run opts_default [Mount, Refetch, Settle 1 (Resolved 2)] (init :: nat hook)"
  have m: "mounted ?s" and p: "0 \<in> set (pending ?s)" and a: "abortControllerRef ?s \<noteq> Some 0"
    and d: "data ?s = Some 2" and n: "name abortError = ''AbortError''"
    by (simp_all add: hook_defs scenario_defs)
  show ?thesis
    using superseded_resolution_unguarded [OF m p a, of abortError 1] m p a d n by simp
qed




subsection \<open>The timer\<close>



text \<open>
  Claim C8 (teardown). In every reachable state the cleanup leaves no timer, so that
  no request is issued however much time passes afterwards; it aborts the active
  controller and leaves the outstanding calls outstanding; and a second cleanup
  changes nothing.
\<close>

theorem stop_teardown_idempotent:
  assumes "s = run opts evs init"
  shows "timers (cleanup s) = [] \<and>
         calls (advance n (cleanup s)) = calls s \<and>
         (case abortControllerRef s of None \<Rightarrow> True
          | Some c \<Rightarrow> c \<in> set (aborted (cleanup s))) \<and>
         pending (cleanup s) = pending s \<and>
         cleanup (cleanup s) = cleanup s"
proof -
  have inv: "hook_inv s"
    unfolding assms by (rule hook_inv_run)
  have 1: "timers (cleanup s) = []"
    using inv by (rule cleanup_timers)
  have 2: "calls (advance n (cleanup s)) = calls s"
    by (simp add: advance_no_timer [OF 1])
  have 3: "case abortControllerRef s of None \<Rightarrow> True | Some c \<Rightarrow> c \<in> set (aborted (cleanup s))"
    by (simp split: option.splits)
  have 4: "pending (cleanup s) = pending s"
    by simp
  show ?thesis
    by (intro conjI) (fact 1 2 3 4 cleanup_idem)+
qed

theorem stop_teardown_idempotent_witness:
  "timers (run opts_1000 [Mount] (init :: nat hook)) = [(1, 1000, 1000)] \<and>
   timers (cleanup (run opts_1000 [Mount] (init :: nat hook))) = [] \<and>
   calls (advance 10000 (cleanup (run opts_1000 [Mount] (init :: nat hook)))) = [0] \<and>
   0 \<in> set (aborted (cleanup (run opts_1000 [Mount] (init :: nat hook)))) \<and>
   pending (cleanup (run opts_1000 [Mount] (init :: nat hook))) = [0] \<and>
   cleanup (cleanup (run opts_1000 [Mount] (init :: nat hook)))
     = cleanup (run opts_1000 [Mount] (init :: nat hook))"
proof -
  let ?s = "run opts_1000 [Mount] (init :: nat hook)"
  note T = stop_teardown_idempotent [of ?s opts_1000 "[Mount]" 10000, OF refl]
  have raw: "timers (cleanup ?s) = []" "calls (advance 10000 (cleanup ?s)) = calls ?s"
    "case abortControllerRef ?s of None \<Rightarrow> True | Some c \<Rightarrow> c \<in> set (aborted (cleanup ?s))"
    "pending (cleanup ?s) = pending ?s" "cleanup (cleanup ?s) = cleanup ?s"
    using T by blast+
  have 2: "calls (advance 10000 (cleanup ?s)) = [0]"
    using raw(2) unfolding mount_1000 .
  have 3: "0 \<in> set (aborted (cleanup ?s))"
    using raw(3) unfolding mount_1000 by simp
  have 4: "pending (cleanup ?s) = [0]"
    using raw(4) unfolding mount_1000 .
  show ?thesis
    by (intro conjI) (fact mount_1000 raw(1) raw(5) 2 3 4)+
qed

text \<open>
  Claim C10 (the initial state). Before the effect has run, \<open>data\<close> is absent,
  \<open>loading\<close> is false, \<open>error\<close> is absent and no call has been made. When \<open>immediate\<close>
  is false the same holds after the effect for as long as less than one period has
  passed, and the first tick of the timer issues the first request.
\<close>

theorem initial_state:
  "data (init :: 'a hook) = None \<and>
   \<not> loading (init :: 'a hook) \<and>
   error (init :: 'a hook) = None \<and>
   calls (init :: 'a hook) = [] \<and>
   (\<not> immediate_of opts \<longrightarrow>
      (\<forall>n<period (interval_of opts).
         data (advance n (step opts Mount (init :: 'a hook))) = None \<and>
         \<not> loading (advance n (step opts Mount (init :: 'a hook))) \<and>
         error (advance n (step opts Mount (init :: 'a hook))) = None \<and>
         calls (advance n (step opts Mount (init :: 'a hook))) = []) \<and>
      loading (advance (period (interval_of opts)) (step opts Mount (init :: 'a hook))) \<and>
      calls (advance (period (interval_of opts)) (step opts Mount (init :: 'a hook))) = [0])"
proof -
  let ?P = "period (interval_of opts)"
  let ?m = "startInterval opts (init :: 'a hook)"
  have i: "data (init :: 'a hook) = None" "\<not> loading (init :: 'a hook)"
    "error (init :: 'a hook) = None" "calls (init :: 'a hook) = []"
    "now (init :: 'a hook) = 0" "nextController (init :: 'a hook) = 0"
    "mounted (init :: 'a hook)"
    by (simp_all add: init_def)
  have t: "timers ?m = [(nextTimer (init :: 'a hook), now ?m + ?P, ?P)]"
    using startInterval_timers [OF hook_inv_init, of opts] by simp
  have q: "\<forall>n<?P. advance n ?m = ?m\<lparr>now := now ?m + n\<rparr>"
    by (simp add: armed_quiet [OF t])
  have tick: "advance ?P ?m =
      fetchData (?m\<lparr>now := now ?m + ?P, timers := [(nextTimer (init :: 'a hook), now ?m + ?P + ?P, ?P)]\<rparr>)"
    using t period_pos by (rule armed_tick)
  have l: "loading (advance ?P ?m)" and c: "calls (advance ?P ?m) = [0]"
    unfolding tick by (simp_all add: i)
  show ?thesis
    using q l c by (simp add: i effect_def)
qed

theorem initial_state_witness:
  "\<not> immediate_of opts_lazy \<and>
   data (advance 999 (step opts_lazy Mount (init :: nat hook))) = None \<and>
   \<not> loading (advance 999 (step opts_lazy Mount (init :: nat hook))) \<and>
   error (advance 999 (step opts_lazy Mount (init :: nat hook))) = None \<and>
   calls (advance 999 (step opts_lazy Mount (init :: nat hook))) = [] \<and>
   loading (advance 1000 (step opts_lazy Mount (init :: nat hook))) \<and>
   calls (advance 1000 (step opts_lazy Mount (init :: nat hook))) = [0]"
proof -
  note T = initial_state [of opts_lazy, where 'a = nat]
  have P: "period (interval_of opts_lazy) = 1000"
    by (simp add: period_def interval_of_def opts_lazy_def)
  have i: "\<not> immediate_of opts_lazy"
    by (simp add: immediate_of_def opts_lazy_def)
  have q: "\<forall>n<1000.
         data (advance n (step opts_lazy Mount (init :: nat hook))) = None \<and>
         \<not> loading (advance n (step opts_lazy Mount (init :: nat hook))) \<and>
         error (advance n (step opts_lazy Mount (init :: nat hook))) = None \<and>
         calls (advance n (step opts_lazy Mount (init :: nat hook))) = []"
    and l: "loading (advance 1000 (step opts_lazy Mount (init :: nat hook)))"
    and c: "calls (advance 1000 (step opts_lazy Mount (init :: nat hook))) = [0]"
    using T i unfolding P by blast+
  have "(999::nat) < 1000" by simp
  with q have
    "data (advance 999 (step opts_lazy Mount (init :: nat hook))) = None \<and>
     \<not> loading (advance 999 (step opts_lazy Mount (init :: nat hook))) \<and>
     error (advance 999 (step opts_lazy Mount (init :: nat hook))) = None \<and>
     calls (advance 999 (step opts_lazy Mount (init :: nat hook))) = []"
    by blast
  then show ?thesis
    using i l c by blast
qed

end
